theory Spec2Isabelle
  imports Complex_Main
begin

section \<open>Python values used by the notebook\<close>

text \<open>
  The notebook \<^verbatim>\<open>exercise4-02-03-2020/multiple_comparisons.ipynb\<close> works on Python
  integers (unbounded, modelled as \<^typ>\<open>int\<close>) and on Python floats (IEEE binary64).
  A finite binary64 value is a rational number, so a float is modelled by its exact
  value, or one of the three special values. The two zeros are identified: they compare
  equal, and no operation of the notebook tells them apart.
\<close>

datatype pyfloat = Finite rat | PosInf | NegInf | NaN

text \<open>Python's \<^verbatim>\<open>a < b\<close> on floats: every comparison with NaN is false.\<close>

fun flt :: "pyfloat \<Rightarrow> pyfloat \<Rightarrow> bool" where
  "flt NaN b = False"
| "flt a NaN = False"
| "flt (Finite a) (Finite b) = (a < b)"
| "flt (Finite a) PosInf = True"
| "flt (Finite a) NegInf = False"
| "flt PosInf b = False"
| "flt NegInf (Finite b) = True"
| "flt NegInf PosInf = True"
| "flt NegInf NegInf = False"

datatype py_error = IndexError | ValueError | OverflowError | ZeroDivisionError

text \<open>\<^verbatim>\<open>range(a, b)\<close> with step 1: the integers from \<open>a\<close> up to \<open>b - 1\<close>, empty when \<open>b \<le> a\<close>.\<close>

definition py_range :: "int \<Rightarrow> int \<Rightarrow> int list" where
  "py_range a b = [a..b - 1]"

text \<open>
  A \<^verbatim>\<open>for\<close> loop over a list of values, threading the state; an exception raised by the
  body leaves the loop at once.
\<close>

fun for_loop :: "'a list \<Rightarrow> ('a \<Rightarrow> 's \<Rightarrow> py_error + 's) \<Rightarrow> 's \<Rightarrow> py_error + 's" where
  "for_loop [] body s = Inr s"
| "for_loop (x # xs) body s =
     (case body x s of Inl e \<Rightarrow> Inl e | Inr s' \<Rightarrow> for_loop xs body s')"

section \<open>The notebook state\<close>

text \<open>
  A pandas Series of floats is a list of floats; the DataFrame \<^verbatim>\<open>df\<close> is the list of its
  named columns, in column order. The global variables of the notebook are the fields
  of the state. \<open>rng\<close> is the state of numpy's global random generator.

  The code cells run at the top level of the kernel, so the variables that their loops
  bind are global variables too: \<^verbatim>\<open>i\<close>, \<^verbatim>\<open>X\<close> and \<^verbatim>\<open>name\<close> in cell 2, and \<^verbatim>\<open>i\<close>, \<^verbatim>\<open>j\<close>,
  \<^verbatim>\<open>Xi\<close>, \<^verbatim>\<open>Xj\<close>, \<^verbatim>\<open>results\<close> and \<^verbatim>\<open>pvalue\<close> in cell 4. Their fields carry the suffix
  \<open>_var\<close>, the plain names being used for bound variables in this theory, and hold
  \<open>None\<close> as long as the name is not bound in the kernel.

  Two fields are observations of a run and not variables of the program: \<open>tested\<close> is
  the sequence of index pairs on which \<^verbatim>\<open>stats.spearmanr\<close> has returned, and \<open>outputs\<close>
  is what the code cells have written to their output area.
\<close>

type_synonym series = "pyfloat list"

record 'g notebook =
  rng :: 'g
  N :: int
  T :: int
  df :: "(string \<times> series) list"
  cutoff :: pyfloat
  significant_pairs :: "(int \<times> int) list"
  i_var :: "int option"
  j_var :: "int option"
  X_var :: "series option"
  name_var :: "string option"
  Xi_var :: "series option"
  Xj_var :: "series option"
  results_var :: "(pyfloat \<times> pyfloat) option"
  pvalue_var :: "pyfloat option"
  tested :: "(int \<times> int) list"
  outputs :: "string list"

text \<open>
  \<^verbatim>\<open>df.iloc[:, i]\<close>: the column at position \<open>i\<close>; a negative position counts from the
  last column, and a position outside the frame raises IndexError.
\<close>

definition iloc :: "(string \<times> series) list \<Rightarrow> int \<Rightarrow> py_error + series" where
  "iloc d i =
     (let n = int (length d); k = (if i < 0 then n + i else i)
      in if 0 \<le> k \<and> k < n then Inr (snd (d ! nat k)) else Inl IndexError)"

section \<open>Generating the series (code cell 2)\<close>

text \<open>
  \<^verbatim>\<open>np.random.normal(0, 1, T)\<close> takes \<open>T\<close> successive samples from the global generator
  and raises ValueError for a negative size. The sampler of one value, \<open>draw\<close>, is a
  parameter of the model: it maps a generator state to a sample and the next state.
\<close>

fun draws :: "('g \<Rightarrow> pyfloat \<times> 'g) \<Rightarrow> nat \<Rightarrow> 'g \<Rightarrow> series \<times> 'g" where
  "draws draw 0 g = ([], g)"
| "draws draw (Suc k) g =
     (case draw g of (x, g1) \<Rightarrow> (case draws draw k g1 of (xs, g2) \<Rightarrow> (x # xs, g2)))"

definition np_random_normal :: "('g \<Rightarrow> pyfloat \<times> 'g) \<Rightarrow> int \<Rightarrow> 'g \<Rightarrow> py_error + (series \<times> 'g)" where
  "np_random_normal draw sz g =
     (if sz < 0 then Inl ValueError else Inr (draws draw (nat sz) g))"

text \<open>\<^verbatim>\<open>'X%s' % i\<close>: the letter X followed by the decimal digits of \<open>i\<close>.\<close>

fun digits :: "nat \<Rightarrow> string" where
  "digits n =
     (if n < 10 then [''0123456789'' ! n]
      else digits (n div 10) @ [''0123456789'' ! (n mod 10)])"

definition str_int :: "int \<Rightarrow> string" where
  "str_int i = (if i < 0 then CHR ''-'' # digits (nat (- i)) else digits (nat i))"

definition column_name :: "int \<Rightarrow> string" where
  "column_name i = ''X'' @ str_int i"

text \<open>
  \<^verbatim>\<open>df[name] = X\<close>: an existing column of that name is replaced in place, a new one
  is appended after the last column. pandas aligns the assigned Series to the row
  index of the frame; every Series assigned in this notebook has the default index
  \<open>0, ..., T - 1\<close>, which is the row index of the frame, so the values are stored as
  they are.
\<close>

fun setitem :: "(string \<times> series) list \<Rightarrow> string \<Rightarrow> series \<Rightarrow> (string \<times> series) list" where
  "setitem [] name X = [(name, X)]"
| "setitem ((k, v) # cols) name X =
     (if k = name then (k, X) # cols else (k, v) # setitem cols name X)"

text \<open>
  One iteration of the loop: the loop binds \<^verbatim>\<open>i\<close>, then the body runs:
  \<^verbatim>\<open>
    X = np.random.normal(0, 1, T)
    X = pd.Series(X)
    name = 'X%s' % i
    df[name] = X
  \<close>
  The array and the Series made of it hold the same values, so \<^verbatim>\<open>X\<close> is bound once.
\<close>

definition generate_body :: "('g \<Rightarrow> pyfloat \<times> 'g) \<Rightarrow> int \<Rightarrow> 'g notebook \<Rightarrow> py_error + 'g notebook" where
  "generate_body draw i st =
     (let st0 = st\<lparr>i_var := Some i\<rparr>
      in case np_random_normal draw (T st0) (rng st0) of
           Inl e \<Rightarrow> Inl e
         | Inr (X, g) \<Rightarrow>
             (let st1 = st0\<lparr>rng := g, X_var := Some X\<rparr>;
                  name = column_name i;
                  st2 = st1\<lparr>name_var := Some name\<rparr>
              in Inr (st2\<lparr>df := setitem (df st2) name X\<rparr>)))"

text \<open>
  The whole cell: \<^verbatim>\<open>df = pd.DataFrame()\<close>, \<^verbatim>\<open>N = 20\<close>, \<^verbatim>\<open>T = 100\<close>, then
  \<^verbatim>\<open>for i in range(N): ...\<close>. The values assigned to \<^verbatim>\<open>N\<close> and \<^verbatim>\<open>T\<close> are parameters here.
\<close>

definition generate_cell :: "('g \<Rightarrow> pyfloat \<times> 'g) \<Rightarrow> int \<Rightarrow> int \<Rightarrow> 'g notebook \<Rightarrow> py_error + 'g notebook" where
  "generate_cell draw n t st =
     (let st1 = st\<lparr>df := [], N := n, T := t\<rparr>
      in for_loop (py_range 0 (N st1)) (generate_body draw) st1)"

section \<open>The pairwise scan (code cell 4)\<close>

text \<open>
  \<^verbatim>\<open>stats.spearmanr\<close> is the external statistical primitive: it is a parameter of the
  model, a function from two series to a pair (coefficient, p-value) that may raise.
\<close>

type_synonym primitive = "series \<Rightarrow> series \<Rightarrow> py_error + (pyfloat \<times> pyfloat)"

text \<open>
  One iteration of the inner loop: the loop binds \<^verbatim>\<open>j\<close>, then the body runs:
  \<^verbatim>\<open>
        Xi = df.iloc[:, i]
        Xj = df.iloc[:, j]
        results = stats.spearmanr(Xi, Xj)
        pvalue = results[1]
        if pvalue < cutoff:
            significant_pairs.append((i, j))
  \<close>
\<close>

definition scan_body :: "primitive \<Rightarrow> int \<Rightarrow> int \<Rightarrow> 'g notebook \<Rightarrow> py_error + 'g notebook" where
  "scan_body spearmanr i j st =
     (let st0 = st\<lparr>j_var := Some j\<rparr>
      in case iloc (df st0) i of
           Inl e \<Rightarrow> Inl e
         | Inr Xi \<Rightarrow>
             (let st1 = st0\<lparr>Xi_var := Some Xi\<rparr>
              in case iloc (df st1) j of
                   Inl e \<Rightarrow> Inl e
                 | Inr Xj \<Rightarrow>
                     (let st2 = st1\<lparr>Xj_var := Some Xj\<rparr>
                      in case spearmanr Xi Xj of
                           Inl e \<Rightarrow> Inl e
                         | Inr results \<Rightarrow>
                             (let st3 = st2\<lparr>results_var := Some results,
                                            tested := tested st2 @ [(i, j)]\<rparr>;
                                  pvalue = snd results;
                                  st4 = st3\<lparr>pvalue_var := Some pvalue\<rparr>
                              in if flt pvalue (cutoff st4)
                                 then Inr (st4\<lparr>significant_pairs := significant_pairs st4 @ [(i, j)]\<rparr>)
                                 else Inr st4))))"

text \<open>
  One iteration of the outer loop: the loop binds \<^verbatim>\<open>i\<close>, then the inner loop
  \<^verbatim>\<open>for j in range(i+1, N): ...\<close> runs.
\<close>

definition inner_loop :: "primitive \<Rightarrow> int \<Rightarrow> 'g notebook \<Rightarrow> py_error + 'g notebook" where
  "inner_loop spearmanr i st =
     (let st0 = st\<lparr>i_var := Some i\<rparr>
      in for_loop (py_range (i + 1) (N st0)) (scan_body spearmanr i) st0)"

text \<open>\<^verbatim>\<open>for i in range(N): for j in range(i+1, N): ...\<close>\<close>

definition pairwise_scan :: "primitive \<Rightarrow> 'g notebook \<Rightarrow> py_error + 'g notebook" where
  "pairwise_scan spearmanr st = for_loop (py_range 0 (N st)) (inner_loop spearmanr) st"

text \<open>
  The whole cell: \<^verbatim>\<open>cutoff = 0.05\<close>, \<^verbatim>\<open>significant_pairs = []\<close>, then the loops. The
  value assigned to \<^verbatim>\<open>cutoff\<close> is a parameter here.
\<close>

definition scan_cell :: "primitive \<Rightarrow> pyfloat \<Rightarrow> 'g notebook \<Rightarrow> py_error + 'g notebook" where
  "scan_cell spearmanr c st = pairwise_scan spearmanr (st\<lparr>cutoff := c, significant_pairs := []\<rparr>)"

text \<open>Code cell 6, \<^verbatim>\<open>len(significant_pairs)\<close>: the reported count.\<close>

definition reported_count :: "'g notebook \<Rightarrow> int" where
  "reported_count st = int (length (significant_pairs st))"

section \<open>One run of the experiment\<close>

text \<open>The cells run in notebook order: the series are generated, then scanned.\<close>

definition run_experiment ::
  "('g \<Rightarrow> pyfloat \<times> 'g) \<Rightarrow> primitive \<Rightarrow> int \<Rightarrow> int \<Rightarrow> pyfloat \<Rightarrow> 'g notebook \<Rightarrow> py_error + 'g notebook" where
  "run_experiment draw spearmanr n t c st =
     (case generate_cell draw n t st of
        Inl e \<Rightarrow> Inl e
      | Inr st1 \<Rightarrow> scan_cell spearmanr c st1)"

section \<open>The expected count (code cell 5)\<close>

text \<open>
  Rounding of an exact rational value to binary64, to nearest with ties to even:
  53 significant bits, the exponent of the last bit not below \<open>-1074\<close>, and a result of
  magnitude \<open>2 ^ 1024\<close> or more overflows.
\<close>

text \<open>\<^verbatim>\<open>int.bit_length\<close> of a non-negative integer: the number of its binary digits.\<close>

function bit_length :: "int \<Rightarrow> int" where
  "bit_length n = (if n \<le> 0 then 0 else 1 + bit_length (n div 2))"
  by pat_completeness auto
termination
  by (relation "measure nat") auto

definition pow2 :: "int \<Rightarrow> rat" where
  "pow2 e = (if 0 \<le> e then 2 ^ nat e else 1 / 2 ^ nat (- e))"

text \<open>For \<open>x > 0\<close>, the exponent \<open>e\<close> with \<open>2 ^ e \<le> x < 2 ^ (e + 1)\<close>.\<close>

definition floor_log2 :: "rat \<Rightarrow> int" where
  "floor_log2 x =
     (case quotient_of x of (p, q) \<Rightarrow>
        (let e0 = bit_length p - bit_length q
         in if pow2 e0 \<le> x then e0 else e0 - 1))"

definition round_half_even :: "rat \<Rightarrow> int" where
  "round_half_even x =
     (let f = \<lfloor>x\<rfloor>; r = x - of_int f
      in if r < 1 / 2 then f else if 1 / 2 < r then f + 1 else if even f then f else f + 1)"

definition round_binary64 :: "rat \<Rightarrow> pyfloat" where
  "round_binary64 x =
     (if x = 0 then Finite 0
      else
        (let e = max (floor_log2 \<bar>x\<bar> - 52) (- 1074);
             y = of_int (round_half_even (x / pow2 e)) * pow2 e
         in if pow2 1024 \<le> \<bar>y\<bar> then (if 0 < x then PosInf else NegInf) else Finite y))"

text \<open>A decimal float literal denotes the binary64 value nearest to it.\<close>

definition float_literal :: "rat \<Rightarrow> pyfloat" where
  "float_literal q = round_binary64 q"

text \<open>
  \<^verbatim>\<open>a / b\<close> on Python integers: the correctly rounded quotient; a zero divisor raises
  ZeroDivisionError and a quotient too large for a float raises OverflowError.
\<close>

definition int_truediv :: "int \<Rightarrow> int \<Rightarrow> py_error + pyfloat" where
  "int_truediv a b =
     (if b = 0 then Inl ZeroDivisionError
      else
        (case round_binary64 (of_int a / of_int b) of
           Finite y \<Rightarrow> Inr (Finite y)
         | PosInf \<Rightarrow> Inl OverflowError
         | NegInf \<Rightarrow> Inl OverflowError
         | NaN \<Rightarrow> Inl OverflowError))"

text \<open>\<^verbatim>\<open>a * b\<close> on floats.\<close>

fun fmul :: "pyfloat \<Rightarrow> pyfloat \<Rightarrow> pyfloat" where
  "fmul NaN b = NaN"
| "fmul a NaN = NaN"
| "fmul (Finite a) (Finite b) = round_binary64 (a * b)"
| "fmul (Finite a) PosInf = (if a = 0 then NaN else if 0 < a then PosInf else NegInf)"
| "fmul (Finite a) NegInf = (if a = 0 then NaN else if 0 < a then NegInf else PosInf)"
| "fmul PosInf (Finite b) = (if b = 0 then NaN else if 0 < b then PosInf else NegInf)"
| "fmul NegInf (Finite b) = (if b = 0 then NaN else if 0 < b then NegInf else PosInf)"
| "fmul PosInf PosInf = PosInf"
| "fmul PosInf NegInf = NegInf"
| "fmul NegInf PosInf = NegInf"
| "fmul NegInf NegInf = PosInf"

text \<open>\<^verbatim>\<open>(N * (N-1) / 2) * 0.05\<close>\<close>

definition expected_count :: "int \<Rightarrow> py_error + pyfloat" where
  "expected_count n =
     (case int_truediv (n * (n - 1)) 2 of
        Inl e \<Rightarrow> Inl e
      | Inr h \<Rightarrow> Inr (fmul h (float_literal (5 / 100))))"

section \<open>Vocabulary for the statements\<close>

text \<open>Column \<open>i\<close> of a frame, for a position \<open>0 \<le> i\<close> inside the frame.\<close>

definition column :: "(string \<times> series) list \<Rightarrow> int \<Rightarrow> series" where
  "column d i = snd (d ! nat i)"

text \<open>
  What the loop body obtains for the pair \<open>(i, j)\<close> before it compares: the p-value of
  the test of column \<open>i\<close> against column \<open>j\<close>, or the exception raised on the way.
\<close>

definition test_pair :: "primitive \<Rightarrow> (string \<times> series) list \<Rightarrow> int \<Rightarrow> int \<Rightarrow> py_error + pyfloat" where
  "test_pair spearmanr d i j =
     (case iloc d i of
        Inl e \<Rightarrow> Inl e
      | Inr Xi \<Rightarrow>
          (case iloc d j of
             Inl e \<Rightarrow> Inl e
           | Inr Xj \<Rightarrow>
               (case spearmanr Xi Xj of
                  Inl e \<Rightarrow> Inl e
                | Inr results \<Rightarrow> Inr (snd results))))"

definition pvalue_of :: "primitive \<Rightarrow> (string \<times> series) list \<Rightarrow> int \<Rightarrow> int \<Rightarrow> pyfloat" where
  "pvalue_of spearmanr d i j = (case test_pair spearmanr d i j of Inl e \<Rightarrow> NaN | Inr p \<Rightarrow> p)"

text \<open>
  The iteration space of \<^verbatim>\<open>for i in range(N): for j in range(i+1, N)\<close>, in the order in
  which the loops visit it.
\<close>

definition index_pairs :: "int \<Rightarrow> (int \<times> int) list" where
  "index_pairs n = concat (map (\<lambda>i. map (Pair i) (py_range (i + 1) n)) (py_range 0 n))"

text \<open>The lexicographic order on index pairs.\<close>

fun pair_less :: "int \<times> int \<Rightarrow> int \<times> int \<Rightarrow> bool" where
  "pair_less (a, b) (c, d) = (a < c \<or> (a = c \<and> b < d))"

text \<open>
  A state with the fields blanked that the scan writes: the result list, the trace of
  tested pairs and the six variables bound by the loops of cell 4. Two states with the
  same image differ at most in these fields.
\<close>

definition outside_scan :: "'g notebook \<Rightarrow> 'g notebook" where
  "outside_scan st =
     st\<lparr>significant_pairs := [], tested := [], i_var := None, j_var := None,
        Xi_var := None, Xj_var := None, results_var := None, pvalue_var := None\<rparr>"

text \<open>
  Two notebook states agree on the generated data, and also on the cutoff and on the
  result list. The variables bound by the loops and the observation fields \<open>tested\<close>
  and \<open>outputs\<close> are left out of both.
\<close>

definition same_data :: "'g notebook \<Rightarrow> 'g notebook \<Rightarrow> bool" where
  "same_data s1 s2 \<longleftrightarrow> rng s1 = rng s2 \<and> N s1 = N s2 \<and> T s1 = T s2 \<and> df s1 = df s2"

definition same_vars :: "'g notebook \<Rightarrow> 'g notebook \<Rightarrow> bool" where
  "same_vars s1 s2 \<longleftrightarrow>
     same_data s1 s2 \<and> cutoff s1 = cutoff s2 \<and> significant_pairs s1 = significant_pairs s2"

text \<open>
  The Bonferroni-adjusted cutoff of the specification, \<open>c / K\<close> with \<open>K = N (N - 1) / 2\<close>,
  for \<open>N \<ge> 2\<close> (with fewer series there is no pair to compare with it). The notebook
  has no code for it: its last cells are empty.
\<close>

definition bonferroni_cutoff :: "rat \<Rightarrow> int \<Rightarrow> rat" where
  "bonferroni_cutoff c n = c / of_int (n * (n - 1) div 2)"

section \<open>Concrete inputs\<close>

text \<open>
  A stand-in for the statistical primitive on concrete runs: it raises on an empty
  series, gives a p-value computed from the first entries when both are finite, and
  NaN otherwise.
\<close>

fun example_primitive :: primitive where
  "example_primitive [] Y = Inl ValueError"
| "example_primitive (x # X) [] = Inl ValueError"
| "example_primitive (Finite a # X) (Finite b # Y) = Inr (Finite 0, Finite (\<bar>a - b\<bar> / 10))"
| "example_primitive (x # X) (y # Y) = Inr (NaN, NaN)"

text \<open>A stand-in sampler on generator states \<open>0, ..., 15\<close>.\<close>

definition example_draw :: "nat \<Rightarrow> pyfloat \<times> nat" where
  "example_draw g = (Finite (of_nat (g mod 7) / 4), (5 * g + 3) mod 16)"

definition example_notebook :: "nat notebook" where
  "example_notebook =
     \<lparr>rng = 1, N = 4, T = 1,
      df = [(''X0'', [Finite 0]), (''X1'', [Finite (3 / 10)]),
            (''X2'', [Finite 5]), (''X3'', [Finite (1 / 2)])],
      cutoff = Finite (1 / 20), significant_pairs = [],
      i_var = None, j_var = None, X_var = None, name_var = None,
      Xi_var = None, Xj_var = None, results_var = None, pvalue_var = None,
      tested = [], outputs = []\<rparr>"

definition nan_notebook :: "nat notebook" where
  "nan_notebook =
     \<lparr>rng = 1, N = 3, T = 1,
      df = [(''X0'', [NaN]), (''X1'', [Finite 0]), (''X2'', [Finite (1 / 10)])],
      cutoff = Finite (1 / 20), significant_pairs = [],
      i_var = None, j_var = None, X_var = None, name_var = None,
      Xi_var = None, Xj_var = None, results_var = None, pvalue_var = None,
      tested = [], outputs = []\<rparr>"

definition stale_notebook :: "nat notebook" where
  "stale_notebook =
     \<lparr>rng = 1, N = 7, T = 9,
      df = [(''X0'', [Finite 1, Finite 2])],
      cutoff = Finite (1 / 2), significant_pairs = [(0, 5)],
      i_var = Some 6, j_var = Some 6, X_var = None, name_var = Some ''X0'',
      Xi_var = Some [Finite 1, Finite 2], Xj_var = None, results_var = None,
      pvalue_var = Some (Finite (1 / 4)),
      tested = [(0, 5)], outputs = [''old'']\<rparr>"

section \<open>Facts about the loops\<close>

lemma flt_irrefl: "\<not> flt a a"
  by (cases a) simp_all

lemma iloc_column: "0 \<le> i \<Longrightarrow> i < int (length d) \<Longrightarrow> iloc d i = Inr (column d i)"
  by (simp add: iloc_def column_def)

lemma test_pair_column:
  assumes "0 \<le> i" "i < j" "j < int (length d)"
    and "spearmanr (column d i) (column d j) = Inr (r, p)"
  shows "test_pair spearmanr d i j = Inr p"
  using assms by (simp add: test_pair_def iloc_column)

lemma outside_scan_fields:
  assumes "outside_scan a = outside_scan b"
  shows "df a = df b \<and> cutoff a = cutoff b \<and> N a = N b \<and> T a = T b \<and> rng a = rng b \<and>
         outputs a = outputs b \<and> X_var a = X_var b \<and> name_var a = name_var b"
proof -
  have "df (outside_scan a) = df (outside_scan b)" "cutoff (outside_scan a) = cutoff (outside_scan b)"
    "N (outside_scan a) = N (outside_scan b)" "T (outside_scan a) = T (outside_scan b)"
    "rng (outside_scan a) = rng (outside_scan b)" "outputs (outside_scan a) = outputs (outside_scan b)"
    "X_var (outside_scan a) = X_var (outside_scan b)"
    "name_var (outside_scan a) = name_var (outside_scan b)"
    using assms by simp_all
  then show ?thesis by (simp add: outside_scan_def)
qed

lemma scan_body_ok:
  assumes "test_pair spearmanr (df st) i j = Inr p"
  shows "\<exists>s1. scan_body spearmanr i j st = Inr s1 \<and>
           significant_pairs s1 =
             significant_pairs st @ filter (\<lambda>(a, b). flt p (cutoff st)) [(i, j)] \<and>
           tested s1 = tested st @ [(i, j)] \<and>
           outside_scan s1 = outside_scan st"
  using assms
  by (auto simp: scan_body_def test_pair_def outside_scan_def Let_def split: sum.splits)

lemma inner_run:
  assumes "\<forall>j\<in>set js. test_pair spearmanr (df st) i j = Inr (pval i j)"
  shows "\<exists>st'. for_loop js (scan_body spearmanr i) st = Inr st' \<and>
           significant_pairs st' =
             significant_pairs st @ filter (\<lambda>(a, b). flt (pval a b) (cutoff st)) (map (Pair i) js) \<and>
           tested st' = tested st @ map (Pair i) js \<and>
           outside_scan st' = outside_scan st"
  using assms
proof (induction js arbitrary: st)
  case Nil
  then show ?case by simp
next
  case (Cons j js)
  from Cons.prems have "test_pair spearmanr (df st) i j = Inr (pval i j)" by simp
  from scan_body_ok [OF this] obtain s1 where
    b: "scan_body spearmanr i j st = Inr s1"
    and sp1: "significant_pairs s1 =
      significant_pairs st @ filter (\<lambda>(a, b). flt (pval i j) (cutoff st)) [(i, j)]"
    and t1: "tested s1 = tested st @ [(i, j)]"
    and o1: "outside_scan s1 = outside_scan st" by blast
  from outside_scan_fields [OF o1] have d1: "df s1 = df st" and c1: "cutoff s1 = cutoff st"
    by simp_all
  have "\<forall>j\<in>set js. test_pair spearmanr (df s1) i j = Inr (pval i j)"
    using Cons.prems d1 by simp
  from Cons.IH [OF this] obtain st' where
    r: "for_loop js (scan_body spearmanr i) s1 = Inr st'"
    and sp: "significant_pairs st' =
      significant_pairs s1 @ filter (\<lambda>(a, b). flt (pval a b) (cutoff s1)) (map (Pair i) js)"
    and t: "tested st' = tested s1 @ map (Pair i) js"
    and o: "outside_scan st' = outside_scan s1" by blast
  show ?case
    using b r sp t o sp1 t1 o1 c1 by simp
qed

lemma inner_loop_run:
  assumes "\<forall>j\<in>set (py_range (i + 1) (N st)). test_pair spearmanr (df st) i j = Inr (pval i j)"
  shows "\<exists>st'. inner_loop spearmanr i st = Inr st' \<and>
           significant_pairs st' =
             significant_pairs st @
               filter (\<lambda>(a, b). flt (pval a b) (cutoff st)) (map (Pair i) (py_range (i + 1) (N st))) \<and>
           tested st' = tested st @ map (Pair i) (py_range (i + 1) (N st)) \<and>
           outside_scan st' = outside_scan st"
proof -
  let ?s0 = "st\<lparr>i_var := Some i\<rparr>"
  have o0: "outside_scan ?s0 = outside_scan st" by (simp add: outside_scan_def)
  have "\<forall>j\<in>set (py_range (i + 1) (N ?s0)). test_pair spearmanr (df ?s0) i j = Inr (pval i j)"
    using assms by simp
  from inner_run [where pval = pval, OF this] obtain st' where
    "for_loop (py_range (i + 1) (N ?s0)) (scan_body spearmanr i) ?s0 = Inr st'"
    "significant_pairs st' =
       significant_pairs ?s0 @
         filter (\<lambda>(a, b). flt (pval a b) (cutoff ?s0)) (map (Pair i) (py_range (i + 1) (N ?s0)))"
    "tested st' = tested ?s0 @ map (Pair i) (py_range (i + 1) (N ?s0))"
    "outside_scan st' = outside_scan ?s0" by blast
  then show ?thesis using o0 by (simp add: inner_loop_def Let_def)
qed

lemma outer_run:
  assumes "\<forall>i\<in>set is. 0 \<le> i"
    and "\<And>i j. 0 \<le> i \<Longrightarrow> i < j \<Longrightarrow> j < N st \<Longrightarrow>
           test_pair spearmanr (df st) i j = Inr (pval i j)"
  shows "\<exists>st'. for_loop is (inner_loop spearmanr) st = Inr st' \<and>
           significant_pairs st' =
             significant_pairs st @ filter (\<lambda>(a, b). flt (pval a b) (cutoff st))
                 (concat (map (\<lambda>i. map (Pair i) (py_range (i + 1) (N st))) is)) \<and>
           tested st' =
             tested st @ concat (map (\<lambda>i. map (Pair i) (py_range (i + 1) (N st))) is) \<and>
           outside_scan st' = outside_scan st"
  using assms
proof (induction "is" arbitrary: st)
  case Nil
  then show ?case by simp
next
  case (Cons i "is")
  let ?js = "py_range (i + 1) (N st)"
  have "\<forall>j\<in>set ?js. test_pair spearmanr (df st) i j = Inr (pval i j)"
    using Cons.prems by (auto simp: py_range_def)
  from inner_loop_run [where pval = pval, OF this] obtain s1 where
    b: "inner_loop spearmanr i st = Inr s1"
    and sp1: "significant_pairs s1 =
      significant_pairs st @ filter (\<lambda>(a, b). flt (pval a b) (cutoff st)) (map (Pair i) ?js)"
    and t1: "tested s1 = tested st @ map (Pair i) ?js"
    and o1: "outside_scan s1 = outside_scan st" by blast
  from outside_scan_fields [OF o1] have d1: "df s1 = df st" and c1: "cutoff s1 = cutoff st"
    and n1: "N s1 = N st" by simp_all
  have p1: "\<forall>i\<in>set is. 0 \<le> i" using Cons.prems(1) by simp
  have p2: "\<And>i j. 0 \<le> i \<Longrightarrow> i < j \<Longrightarrow> j < N s1 \<Longrightarrow>
           test_pair spearmanr (df s1) i j = Inr (pval i j)"
    using Cons.prems(2) d1 n1 by simp
  from Cons.IH [OF p1 p2] obtain st' where
    r: "for_loop is (inner_loop spearmanr) s1 = Inr st'"
    and sp: "significant_pairs st' =
             significant_pairs s1 @ filter (\<lambda>(a, b). flt (pval a b) (cutoff s1))
                 (concat (map (\<lambda>i. map (Pair i) (py_range (i + 1) (N s1))) is))"
    and t: "tested st' =
             tested s1 @ concat (map (\<lambda>i. map (Pair i) (py_range (i + 1) (N s1))) is)"
    and o: "outside_scan st' = outside_scan s1" by blast
  show ?case
    using b r sp t o sp1 t1 o1 c1 n1 by simp
qed

lemma pairwise_scan_run:
  assumes "\<And>i j. 0 \<le> i \<Longrightarrow> i < j \<Longrightarrow> j < N st \<Longrightarrow>
           test_pair spearmanr (df st) i j = Inr (pval i j)"
  shows "\<exists>st'. pairwise_scan spearmanr st = Inr st' \<and>
           significant_pairs st' =
             significant_pairs st @
               filter (\<lambda>(a, b). flt (pval a b) (cutoff st)) (index_pairs (N st)) \<and>
           tested st' = tested st @ index_pairs (N st) \<and>
           outside_scan st' = outside_scan st"
  unfolding pairwise_scan_def index_pairs_def
  using assms by (intro outer_run) (auto simp: py_range_def)

lemma set_index_pairs: "set (index_pairs n) = {(i, j). 0 \<le> i \<and> i < j \<and> j < n}"
  by (force simp: index_pairs_def py_range_def)

lemma sorted_rows:
  "sorted_wrt (<) is \<Longrightarrow>
   sorted_wrt pair_less (concat (map (\<lambda>i. map (Pair i) (py_range (i + 1) n)) is))"
proof (induction "is")
  case Nil
  then show ?case by simp
next
  case (Cons i "is")
  have row: "sorted_wrt pair_less (map (Pair i) (py_range (i + 1) n))"
    by (simp add: sorted_wrt_map py_range_def)
  from Cons show ?case
    by (auto simp: sorted_wrt_append row)
qed

lemma sorted_index_pairs: "sorted_wrt pair_less (index_pairs n)"
  unfolding index_pairs_def by (rule sorted_rows) (simp add: py_range_def)

lemma pair_less_distinct: "sorted_wrt pair_less xs \<Longrightarrow> distinct xs"
  by (induction xs) auto

lemma distinct_index_pairs: "distinct (index_pairs n)"
  by (rule pair_less_distinct) (rule sorted_index_pairs)

lemma triangle_step: "(Suc d * d) div 2 = d + (d * (d - 1)) div 2"
proof (cases d)
  case 0
  then show ?thesis by simp
next
  case (Suc e)
  have "Suc (Suc e) * Suc e = 2 * Suc e + Suc e * e" by simp
  then show ?thesis using Suc by simp
qed

lemma length_rows:
  "length (concat (map (\<lambda>i. map (Pair i) (py_range (i + 1) n)) (py_range k n))) =
     (nat (n - k) * (nat (n - k) - 1)) div 2"
proof (induction "nat (n - k)" arbitrary: k)
  case 0
  then show ?case by (simp add: py_range_def)
next
  case (Suc d)
  then have kn: "k \<le> n - 1" and d: "d = nat (n - (k + 1))" by linarith+
  have split: "py_range k n = k # py_range (k + 1) n"
    unfolding py_range_def using kn by (rule upto_rec1)
  have row: "length (py_range (k + 1) n) = d"
    using d by (simp add: py_range_def)
  have "length (concat (map (\<lambda>i. map (Pair i) (py_range (i + 1) n)) (py_range k n))) =
        d + (d * (d - 1)) div 2"
    using Suc.hyps(1) [OF d] row d by (simp add: split)
  also have "\<dots> = (Suc d * d) div 2" by (simp only: triangle_step)
  finally show ?case using Suc.hyps(2) [symmetric] by simp
qed

lemma length_index_pairs: "0 \<le> n \<Longrightarrow> int (length (index_pairs n)) = n * (n - 1) div 2"
proof -
  assume n: "0 \<le> n"
  have "int (length (index_pairs n)) = int ((nat n * (nat n - 1)) div 2)"
    unfolding index_pairs_def by (simp add: length_rows)
  also have "\<dots> = n * (n - 1) div 2"
  proof (cases "n = 0")
    case True
    then show ?thesis by simp
  next
    case False
    with n have "int (nat n - 1) = n - 1" by simp
    then show ?thesis using n by (simp add: zdiv_int)
  qed
  finally show ?thesis .
qed

lemma for_loop_success:
  assumes "for_loop xs body s = Inr s'"
    and "\<And>x s1 s2. body x s1 = Inr s2 \<Longrightarrow> f s2 = f s1 \<and> Q x (f s1)"
  shows "f s' = f s \<and> (\<forall>x\<in>set xs. Q x (f s))"
  using assms(1)
proof (induction xs arbitrary: s)
  case Nil
  then show ?case by simp
next
  case (Cons x xs)
  then obtain s1 where b: "body x s = Inr s1" and r: "for_loop xs body s1 = Inr s'"
    by (auto split: sum.splits)
  from assms(2) [OF b] Cons.IH [OF r] show ?case by simp
qed

lemma scan_body_success:
  assumes "scan_body spearmanr i j s1 = Inr s2"
  shows "(df s2, N s2) = (df s1, N s1) \<and> (\<exists>p. test_pair spearmanr (fst (df s1, N s1)) i j = Inr p)"
  using assms
  by (auto simp: scan_body_def test_pair_def Let_def split: sum.splits if_splits)

lemma inner_loop_success:
  assumes "inner_loop spearmanr i s1 = Inr s2"
  shows "(df s2, N s2) = (df s1, N s1) \<and>
         (\<forall>j\<in>set (py_range (i + 1) (snd (df s1, N s1))). \<exists>p. test_pair spearmanr (fst (df s1, N s1)) i j = Inr p)"
proof -
  let ?s0 = "s1\<lparr>i_var := Some i\<rparr>"
  have "for_loop (py_range (i + 1) (N ?s0)) (scan_body spearmanr i) ?s0 = Inr s2"
    using assms by (simp add: inner_loop_def Let_def)
  then have "(df s2, N s2) = (df ?s0, N ?s0) \<and>
        (\<forall>j\<in>set (py_range (i + 1) (N ?s0)). \<exists>p. test_pair spearmanr (fst (df ?s0, N ?s0)) i j = Inr p)"
    by (rule for_loop_success) (rule scan_body_success)
  then show ?thesis by simp
qed

lemma pairwise_scan_success:
  assumes "pairwise_scan spearmanr st = Inr st'"
    and "0 \<le> i" "i < j" "j < N st"
  shows "\<exists>p. test_pair spearmanr (df st) i j = Inr p"
proof -
  have "(df st', N st') = (df st, N st) \<and>
        (\<forall>i\<in>set (py_range 0 (N st)).
           \<forall>j\<in>set (py_range (i + 1) (snd (df st, N st))). \<exists>p. test_pair spearmanr (fst (df st, N st)) i j = Inr p)"
    using assms(1) unfolding pairwise_scan_def
    by (rule for_loop_success) (rule inner_loop_success)
  then show ?thesis using assms(2-4) by (auto simp: py_range_def)
qed

lemma pairwise_scan_result:
  assumes "pairwise_scan spearmanr st = Inr st'"
  shows "significant_pairs st' =
           significant_pairs st @
             filter (\<lambda>(a, b). flt (pvalue_of spearmanr (df st) a b) (cutoff st)) (index_pairs (N st)) \<and>
         tested st' = tested st @ index_pairs (N st) \<and>
         outside_scan st' = outside_scan st"
proof -
  have "\<exists>st'. pairwise_scan spearmanr st = Inr st' \<and>
           significant_pairs st' =
             significant_pairs st @
               filter (\<lambda>(a, b). flt (pvalue_of spearmanr (df st) a b) (cutoff st)) (index_pairs (N st)) \<and>
           tested st' = tested st @ index_pairs (N st) \<and>
           outside_scan st' = outside_scan st"
  proof (rule pairwise_scan_run)
    fix i j assume "0 \<le> i" "i < j" "j < N st"
    with assms obtain p where "test_pair spearmanr (df st) i j = Inr p"
      using pairwise_scan_success by blast
    then show "test_pair spearmanr (df st) i j = Inr (pvalue_of spearmanr (df st) i j)"
      by (simp add: pvalue_of_def)
  qed
  with assms show ?thesis by auto
qed

lemma scan_cell_run:
  assumes "\<And>i j. 0 \<le> i \<Longrightarrow> i < j \<Longrightarrow> j < N st \<Longrightarrow>
           test_pair spearmanr (df st) i j = Inr (pval i j)"
  shows "\<exists>st'. scan_cell spearmanr c st = Inr st' \<and>
           significant_pairs st' = filter (\<lambda>(a, b). flt (pval a b) c) (index_pairs (N st)) \<and>
           tested st' = tested st @ index_pairs (N st) \<and>
           cutoff st' = c \<and> N st' = N st \<and> df st' = df st \<and> outputs st' = outputs st"
proof -
  let ?s = "st\<lparr>cutoff := c, significant_pairs := []\<rparr>"
  have "\<And>i j. 0 \<le> i \<Longrightarrow> i < j \<Longrightarrow> j < N ?s \<Longrightarrow>
           test_pair spearmanr (df ?s) i j = Inr (pval i j)"
    using assms by simp
  from pairwise_scan_run [of ?s spearmanr pval, OF this] obtain st' where
    r: "pairwise_scan spearmanr ?s = Inr st'"
    and sp: "significant_pairs st' =
             significant_pairs ?s @
               filter (\<lambda>(a, b). flt (pval a b) (cutoff ?s)) (index_pairs (N ?s))"
    and t: "tested st' = tested ?s @ index_pairs (N ?s)"
    and o: "outside_scan st' = outside_scan ?s" by blast
  from outside_scan_fields [OF o] r sp t show ?thesis
    by (simp add: scan_cell_def)
qed

lemma filter_index_pairs_card:
  "length (filter (\<lambda>(a, b). P a b) (index_pairs n)) =
     card {(i, j). 0 \<le> i \<and> i < j \<and> j < n \<and> P i j}"
proof -
  have "{x. (case x of (a, b) \<Rightarrow> P a b)} \<inter> set (index_pairs n) =
        {(i, j). 0 \<le> i \<and> i < j \<and> j < n \<and> P i j}"
    by (auto simp: set_index_pairs)
  then show ?thesis
    using distinct_length_filter [OF distinct_index_pairs, of "\<lambda>(a, b). P a b" n] by simp
qed

lemma for_loop_rel:
  assumes "\<And>x s1 s2. R s1 s2 \<Longrightarrow> rel_sum (=) R (body x s1) (body x s2)"
    and "R s1 s2"
  shows "rel_sum (=) R (for_loop xs body s1) (for_loop xs body s2)"
  using assms(2)
proof (induction xs arbitrary: s1 s2)
  case Nil
  then show ?case by simp
next
  case (Cons x xs)
  from assms(1) [OF Cons.prems, of x] show ?case
    by (cases "body x s1"; cases "body x s2") (auto intro: Cons.IH)
qed

lemma generate_body_rel:
  "same_data s1 s2 \<Longrightarrow> rel_sum (=) same_data (generate_body draw i s1) (generate_body draw i s2)"
  by (auto simp: generate_body_def same_data_def Let_def split: sum.splits prod.splits)

lemma scan_body_rel:
  "same_vars s1 s2 \<Longrightarrow> rel_sum (=) same_vars (scan_body spearmanr i j s1) (scan_body spearmanr i j s2)"
  by (auto simp: scan_body_def same_vars_def same_data_def Let_def split: sum.splits)

lemma inner_loop_rel:
  assumes "same_vars s1 s2"
  shows "rel_sum (=) same_vars (inner_loop spearmanr i s1) (inner_loop spearmanr i s2)"
proof -
  have n: "N s1 = N s2" using assms by (simp add: same_vars_def same_data_def)
  have "same_vars (s1\<lparr>i_var := Some i\<rparr>) (s2\<lparr>i_var := Some i\<rparr>)"
    using assms by (simp add: same_vars_def same_data_def)
  then show ?thesis unfolding inner_loop_def Let_def
    using for_loop_rel [of same_vars "scan_body spearmanr i", OF scan_body_rel] n by simp
qed

lemma pairwise_scan_rel:
  assumes "same_vars s1 s2"
  shows "rel_sum (=) same_vars (pairwise_scan spearmanr s1) (pairwise_scan spearmanr s2)"
proof -
  have "N s1 = N s2" using assms by (simp add: same_vars_def same_data_def)
  then show ?thesis unfolding pairwise_scan_def
    using for_loop_rel [of same_vars "inner_loop spearmanr", OF inner_loop_rel assms] by simp
qed

lemma scan_cell_rel:
  assumes "same_data s1 s2"
  shows "rel_sum (=) same_vars (scan_cell spearmanr c s1) (scan_cell spearmanr c s2)"
  unfolding scan_cell_def
  using assms by (intro pairwise_scan_rel) (simp add: same_vars_def same_data_def)

lemma generate_cell_rel:
  assumes "rng s1 = rng s2"
  shows "rel_sum (=) same_data (generate_cell draw n t s1) (generate_cell draw n t s2)"
proof -
  have "same_data (s1\<lparr>df := [], N := n, T := t\<rparr>) (s2\<lparr>df := [], N := n, T := t\<rparr>)"
    using assms by (simp add: same_data_def)
  then show ?thesis unfolding generate_cell_def Let_def
    using for_loop_rel [of same_data "generate_body draw", OF generate_body_rel] by simp
qed

lemma py_range_empty: "b \<le> a \<Longrightarrow> py_range a b = []"
  by (simp add: py_range_def)

lemma py_range_0_1: "py_range 0 1 = [0]"
  by (simp add: py_range_def)

lemma scan_cell_small:
  "N st \<le> 0 \<Longrightarrow> scan_cell spearmanr c st = Inr (st\<lparr>cutoff := c, significant_pairs := []\<rparr>)"
  "N st = 1 \<Longrightarrow>
     scan_cell spearmanr c st = Inr (st\<lparr>cutoff := c, significant_pairs := [], i_var := Some 0\<rparr>)"
  by (simp_all add: scan_cell_def pairwise_scan_def inner_loop_def py_range_0_1 py_range_empty)







section \<open>Facts about the generated frame\<close>

lemma length_draws: "length (fst (draws draw k g)) = k"
proof (induction k arbitrary: g)
  case 0
  then show ?case by simp
next
  case (Suc k)
  obtain x g1 where d: "draw g = (x, g1)" by (cases "draw g")
  obtain xs g2 where r: "draws draw k g1 = (xs, g2)" by (cases "draws draw k g1")
  from Suc [of g1] r have "length xs = k" by simp
  then show ?case by (simp add: d r)
qed

lemma digits_nonempty: "digits n \<noteq> []"
  by (subst digits.simps) simp

lemma digit_char_inj:
  assumes "''0123456789'' ! a = ''0123456789'' ! b" "a < 10" "b < 10"
  shows "a = b"
proof -
  have "distinct ''0123456789''" by simp
  then show ?thesis using assms by (simp add: nth_eq_iff_index_eq)
qed

lemma digits_inj: "digits n = digits m \<Longrightarrow> n = m"
proof (induction n arbitrary: m rule: less_induct)
  case (less n)
  have ln: "last (digits n) = ''0123456789'' ! (n mod 10)"
    by (subst digits.simps) simp
  have lm: "last (digits m) = ''0123456789'' ! (m mod 10)"
    by (subst digits.simps) simp
  have bn: "butlast (digits n) = (if n < 10 then [] else digits (n div 10))"
    by (subst digits.simps) simp
  have bm: "butlast (digits m) = (if m < 10 then [] else digits (m div 10))"
    by (subst digits.simps) simp
  from less.prems ln lm have "''0123456789'' ! (n mod 10) = ''0123456789'' ! (m mod 10)"
    by simp
  then have md: "n mod 10 = m mod 10" by (rule digit_char_inj) simp_all
  from less.prems bn bm
  have b: "(if n < 10 then [] else digits (n div 10)) = (if m < 10 then [] else digits (m div 10))"
    by simp
  show ?case
  proof (cases "n < 10")
    case True
    with b digits_nonempty have "m < 10" by (auto split: if_splits)
    with True md show ?thesis by simp
  next
    case False
    with b digits_nonempty have m: "\<not> m < 10" and e: "digits (n div 10) = digits (m div 10)"
      by (auto split: if_splits)
    from False have "n div 10 < n" by simp
    from less.IH [OF this e] have "n div 10 = m div 10" .
    with md show ?thesis by (metis div_mult_mod_eq)
  qed
qed

lemma column_name_inj: "0 \<le> i \<Longrightarrow> 0 \<le> j \<Longrightarrow> column_name i = column_name j \<Longrightarrow> i = j"
  using digits_inj [of "nat i" "nat j"] by (simp add: column_name_def str_int_def)

lemma setitem_new: "name \<notin> fst ` set d \<Longrightarrow> setitem d name X = d @ [(name, X)]"
  by (induction d) auto

lemma generate_loop:
  assumes "0 \<le> t" "T s = t" "0 \<le> k"
    and "map fst (df s) = map column_name (py_range 0 k)"
    and "\<forall>col\<in>set (df s). length (snd col) = nat t"
  shows "\<exists>s'. for_loop (py_range k n) (generate_body draw) s = Inr s' \<and>
           map fst (df s') = map column_name (py_range 0 (max k n)) \<and>
           (\<forall>col\<in>set (df s'). length (snd col) = nat t) \<and>
           N s' = N s \<and> T s' = t \<and> cutoff s' = cutoff s \<and>
           significant_pairs s' = significant_pairs s \<and> tested s' = tested s \<and>
           outputs s' = outputs s"
  using assms
proof (induction "nat (n - k)" arbitrary: k s)
  case 0
  then have "py_range k n = []" and "max k n = k" by (simp_all add: py_range_def)
  with 0 show ?case by simp
next
  case (Suc d)
  then have kn: "k \<le> n - 1" and d: "d = nat (n - (k + 1))" by linarith+
  have split: "py_range k n = k # py_range (k + 1) n"
    unfolding py_range_def using kn by (rule upto_rec1)
  obtain X g where dr: "draws draw (nat t) (rng s) = (X, g)" by (cases "draws draw (nat t) (rng s)")
  have lx: "length X = nat t" using length_draws [of draw "nat t" "rng s"] dr by simp
  have fresh: "column_name k \<notin> fst ` set (df s)"
  proof
    assume "column_name k \<in> fst ` set (df s)"
    then have "column_name k \<in> set (map fst (df s))" by simp
    then have "column_name k \<in> column_name ` set (py_range 0 k)" by (simp add: Suc.prems(4))
    then obtain i where "0 \<le> i" "i < k" "column_name k = column_name i"
      by (auto simp: py_range_def)
    with Suc.prems(3) column_name_inj [of k i] show False by simp
  qed
  let ?s1 = "s\<lparr>i_var := Some k, rng := g, X_var := Some X, name_var := Some (column_name k),
               df := df s @ [(column_name k, X)]\<rparr>"
  have body: "generate_body draw k s = Inr ?s1"
    using Suc.prems(1,2) dr
    by (simp add: generate_body_def np_random_normal_def Let_def setitem_new [OF fresh])
  have r0: "py_range 0 (k + 1) = py_range 0 k @ [k]"
    unfolding py_range_def using Suc.prems(3) by (simp add: upto_rec2)
  have "\<exists>s'. for_loop (py_range (k + 1) n) (generate_body draw) ?s1 = Inr s' \<and>
           map fst (df s') = map column_name (py_range 0 (max (k + 1) n)) \<and>
           (\<forall>col\<in>set (df s'). length (snd col) = nat t) \<and>
           N s' = N ?s1 \<and> T s' = t \<and> cutoff s' = cutoff ?s1 \<and>
           significant_pairs s' = significant_pairs ?s1 \<and> tested s' = tested ?s1 \<and>
           outputs s' = outputs ?s1"
    using Suc.prems lx by (intro Suc.hyps(1) [OF d]) (simp_all add: r0)
  moreover have "max (k + 1) n = max k n" using kn by simp
  ultimately show ?case by (simp add: split body)
qed

lemma generate_cell_frame:
  assumes "0 \<le> t"
  shows "\<exists>st1. generate_cell draw n t st = Inr st1 \<and> N st1 = n \<and> T st1 = t \<and>
           map fst (df st1) = map column_name (py_range 0 n) \<and>
           int (length (df st1)) = max n 0 \<and>
           (\<forall>col\<in>set (df st1). length (snd col) = nat t) \<and>
           tested st1 = tested st \<and> outputs st1 = outputs st"
proof -
  let ?s = "st\<lparr>df := [], N := n, T := t\<rparr>"
  have "\<exists>s'. for_loop (py_range 0 n) (generate_body draw) ?s = Inr s' \<and>
           map fst (df s') = map column_name (py_range 0 (max 0 n)) \<and>
           (\<forall>col\<in>set (df s'). length (snd col) = nat t) \<and>
           N s' = N ?s \<and> T s' = t \<and> cutoff s' = cutoff ?s \<and>
           significant_pairs s' = significant_pairs ?s \<and> tested s' = tested ?s \<and>
           outputs s' = outputs ?s"
    using assms by (intro generate_loop) (simp_all add: py_range_def)
  then obtain s' where s': "for_loop (py_range 0 n) (generate_body draw) ?s = Inr s'"
    "map fst (df s') = map column_name (py_range 0 (max 0 n))"
    "\<forall>col\<in>set (df s'). length (snd col) = nat t"
    "N s' = n" "T s' = t" "tested s' = tested st" "outputs s' = outputs st"
    by auto
  have "py_range 0 (max 0 n) = py_range 0 n" by (simp add: py_range_def max_def)
  with s'(2) have names: "map fst (df s') = map column_name (py_range 0 n)" by simp
  then have "length (df s') = length (py_range 0 n)" by (metis length_map)
  then have "int (length (df s')) = max n 0" by (simp add: py_range_def)
  with s' names show ?thesis by (simp add: generate_cell_def)
qed

section \<open>The claims\<close>

text \<open>
  C1. For a frame of \<open>N\<close> series on whose pairs the primitive returns a result, the cell
  ends normally and the reported count \<^verbatim>\<open>len(significant_pairs)\<close> is the number of index
  pairs \<open>(i, j)\<close>, \<open>0 \<le> i < j < N\<close>, whose p-value is strictly below the cutoff \<open>c\<close>; a
  pair whose p-value equals \<open>c\<close> is not recorded.
\<close>

theorem reported_count_counts_pairs_below_cutoff:
  assumes "int (length (df st)) = N st"
    and "\<And>i j. 0 \<le> i \<Longrightarrow> i < j \<Longrightarrow> j < N st \<Longrightarrow>
           spearmanr (column (df st) i) (column (df st) j) = Inr (rho i j, pval i j)"
  shows "\<exists>st'. scan_cell spearmanr c st = Inr st' \<and>
           reported_count st' =
             int (card {(i, j). 0 \<le> i \<and> i < j \<and> j < N st \<and> flt (pval i j) c}) \<and>
           (\<forall>i j. pval i j = c \<longrightarrow> (i, j) \<notin> set (significant_pairs st'))"
proof -
  have tp: "\<And>i j. 0 \<le> i \<Longrightarrow> i < j \<Longrightarrow> j < N st \<Longrightarrow>
           test_pair spearmanr (df st) i j = Inr (pval i j)"
    using assms by (intro test_pair_column) auto
  from scan_cell_run [of st spearmanr pval c, OF tp] obtain st' where
    run: "scan_cell spearmanr c st = Inr st'"
    and sp: "significant_pairs st' = filter (\<lambda>(a, b). flt (pval a b) c) (index_pairs (N st))"
    by blast
  show ?thesis
    by (simp add: run sp reported_count_def filter_index_pairs_card flt_irrefl)
qed

theorem reported_count_counts_pairs_below_cutoff_witness:
  "int (length (df example_notebook)) = N example_notebook \<and>
   reported_count (projr (scan_cell example_primitive (Finite (1 / 20)) example_notebook)) = 2 \<and>
   card {(i, j). 0 \<le> i \<and> i < j \<and> j < N example_notebook \<and>
           flt (pvalue_of example_primitive (df example_notebook) i j) (Finite (1 / 20))} = 2 \<and>
   pvalue_of example_primitive (df example_notebook) 0 3 = Finite (1 / 20) \<and>
   (0, 3) \<notin> set (significant_pairs (projr (scan_cell example_primitive (Finite (1 / 20)) example_notebook)))"
proof -
  have len: "int (length (df example_notebook)) = N example_notebook"
    by (simp add: example_notebook_def)
  have tests: "\<And>i j. 0 \<le> i \<Longrightarrow> i < j \<Longrightarrow> j < N example_notebook \<Longrightarrow>
     example_primitive (column (df example_notebook) i) (column (df example_notebook) j) =
       Inr (Finite 0, pvalue_of example_primitive (df example_notebook) i j)"
  proof -
    fix i j :: int
    assume "0 \<le> i" "i < j" "j < N example_notebook"
    then have "(i, j) \<in> {(0, 1), (0, 2), (0, 3), (1, 2), (1, 3), (2, 3)}"
      by (auto simp: example_notebook_def)
    then show "example_primitive (column (df example_notebook) i) (column (df example_notebook) j) =
         Inr (Finite 0, pvalue_of example_primitive (df example_notebook) i j)"
      by (auto simp: example_notebook_def column_def pvalue_of_def test_pair_def iloc_def)
  qed
  have run: "scan_cell example_primitive (Finite (1 / 20)) example_notebook
     = Inr (example_notebook\<lparr>significant_pairs := [(0, 1), (1, 3)],
            i_var := Some 3, j_var := Some 3,
            Xi_var := Some [Finite 5], Xj_var := Some [Finite (1 / 2)],
            results_var := Some (Finite 0, Finite (9 / 20)),
            pvalue_var := Some (Finite (9 / 20)),
            tested := [(0, 1), (0, 2), (0, 3), (1, 2), (1, 3), (2, 3)]\<rparr>)"
    by code_simp
  have p03: "pvalue_of example_primitive (df example_notebook) 0 3 = Finite (1 / 20)"
    by (simp add: example_notebook_def pvalue_of_def test_pair_def iloc_def)
  show ?thesis
    using reported_count_counts_pairs_below_cutoff
      [of example_notebook example_primitive "\<lambda>i j. Finite 0"
          "pvalue_of example_primitive (df example_notebook)" "Finite (1 / 20)", OF len tests]
    by (simp add: run len p03 reported_count_def)
qed

text \<open>
  C2. For \<open>N \<ge> 2\<close> series on whose pairs the primitive returns a result, the loops end
  normally and the pairs they visit are exactly the index pairs \<open>(i, j)\<close> with
  \<open>0 \<le> i < j < N\<close>, each once: \<open>N (N - 1) / 2\<close> of them.
\<close>

theorem pairs_visited_count:
  assumes "2 \<le> N st" and "N st \<le> int (length (df st))"
    and "\<And>i j. 0 \<le> i \<Longrightarrow> i < j \<Longrightarrow> j < N st \<Longrightarrow>
           spearmanr (column (df st) i) (column (df st) j) = Inr (rho i j, pval i j)"
  shows "\<exists>st' visited. pairwise_scan spearmanr st = Inr st' \<and>
           tested st' = tested st @ visited \<and>
           distinct visited \<and>
           set visited = {(i, j). 0 \<le> i \<and> i < j \<and> j < N st} \<and>
           int (length visited) = N st * (N st - 1) div 2"
proof -
  have tp: "\<And>i j. 0 \<le> i \<Longrightarrow> i < j \<Longrightarrow> j < N st \<Longrightarrow>
           test_pair spearmanr (df st) i j = Inr (pval i j)"
    using assms(2,3) by (intro test_pair_column) auto
  have len: "int (length (index_pairs (N st))) = N st * (N st - 1) div 2"
    using assms(1) by (intro length_index_pairs) simp
  from pairwise_scan_run [of st spearmanr pval, OF tp] obtain st' where
    run: "pairwise_scan spearmanr st = Inr st'"
    and t: "tested st' = tested st @ index_pairs (N st)"
    by blast
  have "tested st' = tested st @ index_pairs (N st) \<and>
        distinct (index_pairs (N st)) \<and>
        set (index_pairs (N st)) = {(i, j). 0 \<le> i \<and> i < j \<and> j < N st} \<and>
        int (length (index_pairs (N st))) = N st * (N st - 1) div 2"
    using len t by (simp add: distinct_index_pairs set_index_pairs)
  with run show ?thesis by blast
qed

theorem pairs_visited_count_witness:
  "2 \<le> N example_notebook \<and> N example_notebook \<le> int (length (df example_notebook)) \<and>
   tested (projr (pairwise_scan example_primitive example_notebook)) =
     [(0, 1), (0, 2), (0, 3), (1, 2), (1, 3), (2, 3)] \<and>
   N example_notebook * (N example_notebook - 1) div 2 = 6"
proof -
  have n: "2 \<le> N example_notebook" and len: "N example_notebook \<le> int (length (df example_notebook))"
    by (simp_all add: example_notebook_def)
  have tests: "\<And>i j. 0 \<le> i \<Longrightarrow> i < j \<Longrightarrow> j < N example_notebook \<Longrightarrow>
     example_primitive (column (df example_notebook) i) (column (df example_notebook) j) =
       Inr (Finite 0, pvalue_of example_primitive (df example_notebook) i j)"
  proof -
    fix i j :: int
    assume "0 \<le> i" "i < j" "j < N example_notebook"
    then have "(i, j) \<in> {(0, 1), (0, 2), (0, 3), (1, 2), (1, 3), (2, 3)}"
      by (auto simp: example_notebook_def)
    then show "example_primitive (column (df example_notebook) i) (column (df example_notebook) j) =
         Inr (Finite 0, pvalue_of example_primitive (df example_notebook) i j)"
      by (auto simp: example_notebook_def column_def pvalue_of_def test_pair_def iloc_def)
  qed
  have run: "pairwise_scan example_primitive example_notebook
     = Inr (example_notebook\<lparr>significant_pairs := [(0, 1), (1, 3)],
            i_var := Some 3, j_var := Some 3,
            Xi_var := Some [Finite 5], Xj_var := Some [Finite (1 / 2)],
            results_var := Some (Finite 0, Finite (9 / 20)),
            pvalue_var := Some (Finite (9 / 20)),
            tested := [(0, 1), (0, 2), (0, 3), (1, 2), (1, 3), (2, 3)]\<rparr>)"
    by code_simp
  have six: "N example_notebook * (N example_notebook - 1) div 2 = 6"
    by (simp add: example_notebook_def)
  show ?thesis
    using pairs_visited_count
      [of example_notebook example_primitive "\<lambda>i j. Finite 0"
          "pvalue_of example_primitive (df example_notebook)", OF n len tests]
    by (simp add: run n len six)
qed

text \<open>
  C3 (as amended). The notebook checks no configuration value. For \<open>N < 2\<close> and
  \<open>T \<ge> 0\<close> a run ends normally, whatever the cutoff is: it generates \<open>max N 0\<close> series,
  runs no test and leaves the list of significant pairs empty.
\<close>

theorem small_N_runs_no_test:
  assumes "n < 2" "0 \<le> t"
  shows "\<exists>st'. run_experiment draw spearmanr n t c st = Inr st' \<and>
           significant_pairs st' = [] \<and> tested st' = tested st \<and>
           int (length (df st')) = max n 0"
proof -
  from generate_cell_frame [OF assms(2), of draw n st] obtain st1 where
    gen: "generate_cell draw n t st = Inr st1" and n: "N st1 = n"
    and len: "int (length (df st1)) = max n 0" and tr: "tested st1 = tested st"
    by blast
  show ?thesis
  proof (cases "n \<le> 0")
    case True
    with n have "scan_cell spearmanr c st1 = Inr (st1\<lparr>cutoff := c, significant_pairs := []\<rparr>)"
      by (intro scan_cell_small) simp
    then show ?thesis using gen len tr by (simp add: run_experiment_def)
  next
    case False
    with assms(1) n have "N st1 = 1" by simp
    then have "scan_cell spearmanr c st1 =
        Inr (st1\<lparr>cutoff := c, significant_pairs := [], i_var := Some 0\<rparr>)"
      by (rule scan_cell_small)
    then show ?thesis using gen len tr by (simp add: run_experiment_def)
  qed
qed

theorem small_N_runs_no_test_witness:
  "\<exists>st'. run_experiment example_draw example_primitive 1 2 (Finite (1 / 20)) stale_notebook = Inr st' \<and>
         significant_pairs st' = [] \<and> tested st' = tested stale_notebook \<and>
         int (length (df st')) = 1"
  using small_N_runs_no_test [of 1 2 example_draw example_primitive "Finite (1 / 20)" stale_notebook]
  by simp

text \<open>
  The claim as stated fails: a run with \<open>N = 1\<close> is not rejected, and it generates a
  series; a run with the cutoff \<open>3/2\<close> is not rejected either, and tests every pair.
\<close>

theorem invalid_configuration_not_rejected:
  "run_experiment example_draw example_primitive 1 2 (Finite (1 / 20)) example_notebook =
     Inr (example_notebook\<lparr>rng := 11, N := 1, T := 2,
            df := [(''X0'', [Finite (1 / 4), Finite (1 / 4)])],
            i_var := Some 0, X_var := Some [Finite (1 / 4), Finite (1 / 4)],
            name_var := Some ''X0''\<rparr>) \<and>
   run_experiment example_draw example_primitive 3 2 (Finite (3 / 2)) example_notebook =
     Inr (example_notebook\<lparr>rng := 15, N := 3, T := 2,
            df := [(''X0'', [Finite (1 / 4), Finite (1 / 4)]),
                   (''X1'', [Finite 1, Finite (3 / 4)]),
                   (''X2'', [Finite (5 / 4), Finite (5 / 4)])],
            cutoff := Finite (3 / 2),
            significant_pairs := [(0, 1), (0, 2), (1, 2)],
            i_var := Some 2, j_var := Some 2,
            X_var := Some [Finite (5 / 4), Finite (5 / 4)], name_var := Some ''X2'',
            Xi_var := Some [Finite 1, Finite (3 / 4)],
            Xj_var := Some [Finite (5 / 4), Finite (5 / 4)],
            results_var := Some (Finite 0, Finite (1 / 40)),
            pvalue_var := Some (Finite (1 / 40)),
            tested := [(0, 1), (0, 2), (1, 2)]\<rparr>)"
  by code_simp

text \<open>
  C4 (as amended). If the primitive returns a NaN p-value for a pair, the pair is not
  recorded, the scan goes on to the end over all pairs and records exactly those whose
  p-value is below the cutoff; nothing is written to the output.
\<close>

theorem nan_pvalue_excluded_scan_completes:
  assumes "N st \<le> int (length (df st))"
    and "\<And>i j. 0 \<le> i \<Longrightarrow> i < j \<Longrightarrow> j < N st \<Longrightarrow>
           spearmanr (column (df st) i) (column (df st) j) = Inr (rho i j, pval i j)"
    and "0 \<le> a" "a < b" "b < N st" "pval a b = NaN"
  shows "\<exists>st'. scan_cell spearmanr c st = Inr st' \<and>
           (a, b) \<notin> set (significant_pairs st') \<and>
           set (significant_pairs st') = {(i, j). 0 \<le> i \<and> i < j \<and> j < N st \<and> flt (pval i j) c} \<and>
           tested st' = tested st @ index_pairs (N st) \<and>
           outputs st' = outputs st"
proof -
  have tp: "\<And>i j. 0 \<le> i \<Longrightarrow> i < j \<Longrightarrow> j < N st \<Longrightarrow>
           test_pair spearmanr (df st) i j = Inr (pval i j)"
    using assms(1,2) by (intro test_pair_column) auto
  from scan_cell_run [of st spearmanr pval c, OF tp] obtain st' where
    run: "scan_cell spearmanr c st = Inr st'"
    and sp: "significant_pairs st' = filter (\<lambda>(a, b). flt (pval a b) c) (index_pairs (N st))"
    and t: "tested st' = tested st @ index_pairs (N st)"
    and out: "outputs st' = outputs st"
    by blast
  have "set (filter (\<lambda>(a, b). flt (pval a b) c) (index_pairs (N st))) =
        {(i, j). 0 \<le> i \<and> i < j \<and> j < N st \<and> flt (pval i j) c}"
    by (auto simp: set_index_pairs)
  moreover have "\<not> flt (pval a b) c" using assms(6) by simp
  ultimately show ?thesis by (simp add: run sp t out)
qed

theorem nan_pvalue_excluded_scan_completes_witness:
  "pvalue_of example_primitive (df nan_notebook) 0 1 = NaN \<and>
   scan_cell example_primitive (Finite (1 / 20)) nan_notebook =
     Inr (nan_notebook\<lparr>significant_pairs := [(1, 2)],
            i_var := Some 2, j_var := Some 2,
            Xi_var := Some [Finite 0], Xj_var := Some [Finite (1 / 10)],
            results_var := Some (Finite 0, Finite (1 / 100)),
            pvalue_var := Some (Finite (1 / 100)),
            tested := [(0, 1), (0, 2), (1, 2)]\<rparr>) \<and>
   (0, 1) \<notin> set ([(1, 2)] :: (int \<times> int) list)"
proof -
  have len: "N nan_notebook \<le> int (length (df nan_notebook))"
    by (simp add: nan_notebook_def)
  have tests: "\<And>i j. 0 \<le> i \<Longrightarrow> i < j \<Longrightarrow> j < N nan_notebook \<Longrightarrow>
     example_primitive (column (df nan_notebook) i) (column (df nan_notebook) j) =
       Inr (fst (projr (example_primitive (column (df nan_notebook) i) (column (df nan_notebook) j))),
            pvalue_of example_primitive (df nan_notebook) i j)"
  proof -
    fix i j :: int
    assume "0 \<le> i" "i < j" "j < N nan_notebook"
    then have "(i, j) \<in> {(0, 1), (0, 2), (1, 2)}"
      by (auto simp: nan_notebook_def)
    then show "example_primitive (column (df nan_notebook) i) (column (df nan_notebook) j) =
       Inr (fst (projr (example_primitive (column (df nan_notebook) i) (column (df nan_notebook) j))),
            pvalue_of example_primitive (df nan_notebook) i j)"
      by (auto simp: nan_notebook_def column_def pvalue_of_def test_pair_def iloc_def)
  qed
  have nan: "pvalue_of example_primitive (df nan_notebook) 0 1 = NaN"
    by (simp add: nan_notebook_def pvalue_of_def test_pair_def iloc_def)
  have run: "scan_cell example_primitive (Finite (1 / 20)) nan_notebook =
     Inr (nan_notebook\<lparr>significant_pairs := [(1, 2)],
            i_var := Some 2, j_var := Some 2,
            Xi_var := Some [Finite 0], Xj_var := Some [Finite (1 / 10)],
            results_var := Some (Finite 0, Finite (1 / 100)),
            pvalue_var := Some (Finite (1 / 100)),
            tested := [(0, 1), (0, 2), (1, 2)]\<rparr>)"
    by code_simp
  have n: "(0::int) < N nan_notebook" "(1::int) < N nan_notebook"
    by (simp_all add: nan_notebook_def)
  show ?thesis
    using nan_pvalue_excluded_scan_completes
      [of nan_notebook example_primitive
          "\<lambda>i j. fst (projr (example_primitive (column (df nan_notebook) i) (column (df nan_notebook) j)))"
          "pvalue_of example_primitive (df nan_notebook)" 0 1 "Finite (1 / 20)", OF len tests _ _ _ nan]
      nan run n
    by simp
qed

text \<open>
  The claim as stated fails on the logging: after a scan that met a NaN p-value the
  output of the cell is empty.
\<close>

theorem nan_pvalue_not_logged:
  "pvalue_of example_primitive (df nan_notebook) 0 1 = NaN \<and>
   map_sum id outputs (scan_cell example_primitive (Finite (1 / 20)) nan_notebook) = Inr []"
  by code_simp

text \<open>
  C5. A run is determined by the generator state it starts from and by \<open>N\<close>, \<open>T\<close> and
  the cutoff: two runs from notebook states with the same generator state, whatever
  else the two states hold, raise the same exception or end with the same generator
  state, the same series in \<^verbatim>\<open>df\<close> and the same list of significant pairs.
\<close>

theorem experiment_deterministic_given_seed:
  assumes "rng s1 = rng s2"
  shows "rel_sum (=) same_vars
           (run_experiment draw spearmanr n t c s1) (run_experiment draw spearmanr n t c s2)"
proof -
  have g: "rel_sum (=) same_data (generate_cell draw n t s1) (generate_cell draw n t s2)"
    using assms by (rule generate_cell_rel)
  show ?thesis
  proof (cases "generate_cell draw n t s1")
    case (Inl e)
    with g show ?thesis
      by (cases "generate_cell draw n t s2") (simp_all add: run_experiment_def)
  next
    case (Inr a)
    with g obtain b where b: "generate_cell draw n t s2 = Inr b" and ab: "same_data a b"
      by (cases "generate_cell draw n t s2") simp_all
    show ?thesis
      using scan_cell_rel [OF ab] by (simp add: run_experiment_def Inr b)
  qed
qed

theorem experiment_deterministic_given_seed_witness:
  "rng example_notebook = rng stale_notebook \<and>
   rel_sum (=) same_vars
     (run_experiment example_draw example_primitive 3 2 (Finite (1 / 20)) example_notebook)
     (run_experiment example_draw example_primitive 3 2 (Finite (1 / 20)) stale_notebook) \<and>
   map_sum id (\<lambda>s. (df s, significant_pairs s))
     (run_experiment example_draw example_primitive 3 2 (Finite (1 / 20)) stale_notebook) =
     Inr ([(''X0'', [Finite (1 / 4), Finite (1 / 4)]),
           (''X1'', [Finite 1, Finite (3 / 4)]),
           (''X2'', [Finite (5 / 4), Finite (5 / 4)])], [(1, 2)])"
proof -
  have seed: "rng example_notebook = rng stale_notebook"
    by (simp add: example_notebook_def stale_notebook_def)
  have run: "map_sum id (\<lambda>s. (df s, significant_pairs s))
     (run_experiment example_draw example_primitive 3 2 (Finite (1 / 20)) stale_notebook) =
     Inr ([(''X0'', [Finite (1 / 4), Finite (1 / 4)]),
           (''X1'', [Finite 1, Finite (3 / 4)]),
           (''X2'', [Finite (5 / 4), Finite (5 / 4)])], [(1, 2)])"
    by code_simp
  show ?thesis
    using experiment_deterministic_given_seed
      [OF seed, of example_draw example_primitive 3 2 "Finite (1 / 20)"] seed run
    by simp
qed

text \<open>
  C6. With \<open>N = 2\<close> (and two columns on which the primitive returns) exactly one pair,
  \<open>(0, 1)\<close>, is tested. With \<open>N = 0\<close> or \<open>N = 1\<close> the cell ends normally with no pair
  tested and an empty list of significant pairs; with \<open>N = 1\<close> the outer loop has bound
  \<^verbatim>\<open>i\<close> to \<open>0\<close>.
\<close>

theorem boundary_pair_counts:
  "(N st = 2 \<and> 2 \<le> length (df st) \<and>
      spearmanr (column (df st) 0) (column (df st) 1) = Inr (r, p) \<longrightarrow>
      (\<exists>st'. scan_cell spearmanr c st = Inr st' \<and> tested st' = tested st @ [(0, 1)])) \<and>
   (N st = 0 \<longrightarrow>
      scan_cell spearmanr c st = Inr (st\<lparr>cutoff := c, significant_pairs := []\<rparr>)) \<and>
   (N st = 1 \<longrightarrow>
      scan_cell spearmanr c st =
        Inr (st\<lparr>cutoff := c, significant_pairs := [], i_var := Some 0\<rparr>))"
proof (intro conjI impI)
  assume a: "N st = 2 \<and> 2 \<le> length (df st) \<and>
      spearmanr (column (df st) 0) (column (df st) 1) = Inr (r, p)"
  have tp: "\<And>i j. 0 \<le> i \<Longrightarrow> i < j \<Longrightarrow> j < N st \<Longrightarrow>
           test_pair spearmanr (df st) i j = Inr ((\<lambda>i j. p) i j)"
  proof -
    fix i j :: int
    assume "0 \<le> i" "i < j" "j < N st"
    with a have "i = 0" "j = 1" by simp_all
    with a show "test_pair spearmanr (df st) i j = Inr p"
      by (intro test_pair_column [where r = r]) simp_all
  qed
  have ip: "index_pairs 2 = [(0, 1)]"
    by (simp add: index_pairs_def py_range_def upto_rec1)
  from scan_cell_run [of st spearmanr "\<lambda>i j. p" c, OF tp] obtain st' where
    "scan_cell spearmanr c st = Inr st'" "tested st' = tested st @ index_pairs (N st)"
    by blast
  then show "\<exists>st'. scan_cell spearmanr c st = Inr st' \<and> tested st' = tested st @ [(0, 1)]"
    using a by (simp add: ip)
next
  assume "N st = 0"
  then have "N st \<le> 0" by simp
  then show "scan_cell spearmanr c st = Inr (st\<lparr>cutoff := c, significant_pairs := []\<rparr>)"
    by (rule scan_cell_small)
next
  assume "N st = 1"
  then show "scan_cell spearmanr c st =
      Inr (st\<lparr>cutoff := c, significant_pairs := [], i_var := Some 0\<rparr>)"
    by (rule scan_cell_small)
qed

theorem boundary_pair_counts_witness:
  "tested (projr (scan_cell example_primitive (Finite (1 / 20)) (example_notebook\<lparr>N := 2\<rparr>))) = [(0, 1)] \<and>
   scan_cell example_primitive (Finite (1 / 20)) (example_notebook\<lparr>N := 1\<rparr>) =
     Inr (example_notebook\<lparr>N := 1, i_var := Some 0\<rparr>) \<and>
   scan_cell example_primitive (Finite (1 / 20)) (example_notebook\<lparr>N := 0\<rparr>) =
     Inr (example_notebook\<lparr>N := 0\<rparr>)"
  using boundary_pair_counts
      [of "example_notebook\<lparr>N := 2\<rparr>" example_primitive "Finite 0" "Finite (3 / 100)" "Finite (1 / 20)"]
    boundary_pair_counts
      [of "example_notebook\<lparr>N := 1\<rparr>" example_primitive "Finite 0" "Finite 0" "Finite (1 / 20)"]
    boundary_pair_counts
      [of "example_notebook\<lparr>N := 0\<rparr>" example_primitive "Finite 0" "Finite 0" "Finite (1 / 20)"]
  by (auto simp: example_notebook_def column_def)

text \<open>
  C7. The expression of cell 5, \<^verbatim>\<open>(N * (N-1) / 2) * 0.05\<close>, evaluated in binary64
  arithmetic at \<open>N = 20\<close>, is exactly \<open>9.5\<close>.
\<close>

theorem expected_count_20: "expected_count 20 = Inr (Finite (19 / 2))"
  by code_simp

text \<open>
  C8 (as amended). The scan has no correction mode: a pair is recorded exactly when
  its p-value is below the raw cutoff \<open>c\<close> assigned in the cell, also when the p-value
  is not below the Bonferroni-adjusted cutoff \<open>c / K\<close>.
\<close>

theorem scan_compares_against_raw_cutoff:
  assumes "N st \<le> int (length (df st))"
    and "\<And>i j. 0 \<le> i \<Longrightarrow> i < j \<Longrightarrow> j < N st \<Longrightarrow>
           spearmanr (column (df st) i) (column (df st) j) = Inr (rho i j, pval i j)"
    and "0 \<le> a" "a < b" "b < N st"
  shows "\<exists>st'. scan_cell spearmanr (Finite q) st = Inr st' \<and>
           ((a, b) \<in> set (significant_pairs st') \<longleftrightarrow> flt (pval a b) (Finite q)) \<and>
           (pval a b = Finite p \<and> bonferroni_cutoff q (N st) \<le> p \<and> p < q \<longrightarrow>
              (a, b) \<in> set (significant_pairs st'))"
proof -
  have tp: "\<And>i j. 0 \<le> i \<Longrightarrow> i < j \<Longrightarrow> j < N st \<Longrightarrow>
           test_pair spearmanr (df st) i j = Inr (pval i j)"
    using assms(1,2) by (intro test_pair_column) auto
  from scan_cell_run [of st spearmanr pval "Finite q", OF tp] obtain st' where
    run: "scan_cell spearmanr (Finite q) st = Inr st'"
    and sp: "significant_pairs st' =
      filter (\<lambda>(a, b). flt (pval a b) (Finite q)) (index_pairs (N st))"
    by blast
  have "(a, b) \<in> set (index_pairs (N st))"
    using assms(3-5) by (simp add: set_index_pairs)
  then show ?thesis by (auto simp: run sp)
qed

theorem scan_compares_against_raw_cutoff_witness:
  "pvalue_of example_primitive (df example_notebook) 0 1 = Finite (3 / 100) \<and>
   bonferroni_cutoff (1 / 20) (N example_notebook) \<le> 3 / 100 \<and>
   (0, 1) \<in> set (significant_pairs
      (projr (scan_cell example_primitive (Finite (1 / 20)) example_notebook)))"
proof -
  have len: "N example_notebook \<le> int (length (df example_notebook))"
    by (simp add: example_notebook_def)
  have tests: "\<And>i j. 0 \<le> i \<Longrightarrow> i < j \<Longrightarrow> j < N example_notebook \<Longrightarrow>
     example_primitive (column (df example_notebook) i) (column (df example_notebook) j) =
       Inr (Finite 0, pvalue_of example_primitive (df example_notebook) i j)"
  proof -
    fix i j :: int
    assume "0 \<le> i" "i < j" "j < N example_notebook"
    then have "(i, j) \<in> {(0, 1), (0, 2), (0, 3), (1, 2), (1, 3), (2, 3)}"
      by (auto simp: example_notebook_def)
    then show "example_primitive (column (df example_notebook) i) (column (df example_notebook) j) =
         Inr (Finite 0, pvalue_of example_primitive (df example_notebook) i j)"
      by (auto simp: example_notebook_def column_def pvalue_of_def test_pair_def iloc_def)
  qed
  have p01: "pvalue_of example_primitive (df example_notebook) 0 1 = Finite (3 / 100)"
    by (simp add: example_notebook_def pvalue_of_def test_pair_def iloc_def)
  have bc: "bonferroni_cutoff (1 / 20) (N example_notebook) \<le> 3 / 100"
    by (simp add: example_notebook_def bonferroni_cutoff_def)
  have n: "(1::int) < N example_notebook" by (simp add: example_notebook_def)
  show ?thesis
    using scan_compares_against_raw_cutoff
      [of example_notebook example_primitive "\<lambda>i j. Finite 0"
          "pvalue_of example_primitive (df example_notebook)" 0 1 "1 / 20" "3 / 100", OF len tests _ _ n]
      p01 bc
    by auto
qed

text \<open>
  The claim as stated fails: with four series and the cutoff \<open>1/20\<close> the pair \<open>(0, 1)\<close>
  is recorded although its p-value \<open>3/100\<close> is not below \<open>c / K = 1/120\<close>.
\<close>

theorem raw_cutoff_used_not_bonferroni:
  "map_sum id significant_pairs (scan_cell example_primitive (Finite (1 / 20)) example_notebook) =
     Inr [(0, 1), (1, 3)] \<and>
   pvalue_of example_primitive (df example_notebook) 0 1 = Finite (3 / 100) \<and>
   \<not> flt (Finite (3 / 100)) (Finite (bonferroni_cutoff (1 / 20) (N example_notebook)))"
  by code_simp




text \<open>
  C10. After a cell that ran to its end, every recorded pair \<open>(i, j)\<close> satisfies
  \<open>0 \<le> i < j < N\<close>, and the list of recorded pairs is strictly increasing in the
  lexicographic order, hence without repetition.
\<close>

theorem significant_pairs_ordered:
  assumes "scan_cell spearmanr c st = Inr st'"
  shows "(\<forall>(i, j)\<in>set (significant_pairs st'). 0 \<le> i \<and> i < j \<and> j < N st') \<and>
         sorted_wrt pair_less (significant_pairs st') \<and>
         distinct (significant_pairs st')"
proof -
  let ?s = "st\<lparr>cutoff := c, significant_pairs := []\<rparr>"
  from assms have "pairwise_scan spearmanr ?s = Inr st'" by (simp add: scan_cell_def)
  from pairwise_scan_result [OF this]
  have sp: "significant_pairs st' =
      filter (\<lambda>(a, b). flt (pvalue_of spearmanr (df st) a b) c) (index_pairs (N st))"
    and o: "outside_scan st' = outside_scan ?s" by simp_all
  from outside_scan_fields [OF o] have n: "N st' = N st" by simp
  have "sorted_wrt pair_less (significant_pairs st')"
    unfolding sp by (rule sorted_wrt_filter) (rule sorted_index_pairs)
  moreover have "distinct (significant_pairs st')"
    unfolding sp using distinct_index_pairs by simp
  moreover have "\<forall>(i, j)\<in>set (significant_pairs st'). 0 \<le> i \<and> i < j \<and> j < N st'"
    unfolding sp n by (auto simp: set_index_pairs)
  ultimately show ?thesis by simp
qed

theorem significant_pairs_ordered_witness:
  "scan_cell example_primitive (Finite (1 / 2)) example_notebook =
     Inr (example_notebook\<lparr>cutoff := Finite (1 / 2),
            significant_pairs := [(0, 1), (0, 3), (1, 2), (1, 3), (2, 3)],
            i_var := Some 3, j_var := Some 3,
            Xi_var := Some [Finite 5], Xj_var := Some [Finite (1 / 2)],
            results_var := Some (Finite 0, Finite (9 / 20)),
            pvalue_var := Some (Finite (9 / 20)),
            tested := [(0, 1), (0, 2), (0, 3), (1, 2), (1, 3), (2, 3)]\<rparr>) \<and>
   sorted_wrt pair_less [(0, 1), (0, 3), (1, 2), (1, 3), (2, 3)] \<and>
   distinct ([(0, 1), (0, 3), (1, 2), (1, 3), (2, 3)] :: (int \<times> int) list)"
proof -
  have run: "scan_cell example_primitive (Finite (1 / 2)) example_notebook =
     Inr (example_notebook\<lparr>cutoff := Finite (1 / 2),
            significant_pairs := [(0, 1), (0, 3), (1, 2), (1, 3), (2, 3)],
            i_var := Some 3, j_var := Some 3,
            Xi_var := Some [Finite 5], Xj_var := Some [Finite (1 / 2)],
            results_var := Some (Finite 0, Finite (9 / 20)),
            pvalue_var := Some (Finite (9 / 20)),
            tested := [(0, 1), (0, 2), (0, 3), (1, 2), (1, 3), (2, 3)]\<rparr>)"
    by code_simp
  show ?thesis
    using significant_pairs_ordered [OF run] by (simp add: run)
qed

end
